theory Spec2Isabelle
  imports Complex_Main "HOL-Library.Multiset"
begin

section \<open>JavaScript numbers\<close>

text \<open>
  The report builders of \<^verbatim>\<open>scripts/localrank.js\<close> work on the JSON returned by the
  scan API. A number of the JSON text is a rational (a decimal numeral), and
  \<^verbatim>\<open>resp.json()\<close> turns it into a JavaScript number: an IEEE 754 double. A double is
  modelled by its exact rational value, or it is one of the infinities, or not a
  number. Negative zero is identified with zero: the builders cannot tell them apart
  (both are falsy, compare alike and print as \<^verbatim>\<open>0\<close>).
\<close>

datatype double = Fin rat | PosInf | NegInf | NaN

text \<open>The number of binary digits of a positive integer.\<close>

function bit_length :: "int \<Rightarrow> int" where
  "bit_length n = (if n \<le> 0 then 0 else 1 + bit_length (n div 2))"
  by pat_completeness auto
termination
  by (relation "measure nat") auto

definition pow2 :: "int \<Rightarrow> rat" where
  "pow2 e = (if 0 \<le> e then 2 ^ nat e else 1 / 2 ^ nat (- e))"

text \<open>The binary exponent of a positive rational \<open>x\<close>: the \<open>e\<close> with \<open>2^e \<le> x < 2^(e+1)\<close>.\<close>

definition ilog2 :: "rat \<Rightarrow> int" where
  "ilog2 x =
     (let d = bit_length (fst (quotient_of x)) - bit_length (snd (quotient_of x))
      in if pow2 d \<le> x then d else d - 1)"

definition round_half_even :: "rat \<Rightarrow> int" where
  "round_half_even y =
     (let f = \<lfloor>y\<rfloor>; r = y - of_int f
      in if r < 1 / 2 then f else if 1 / 2 < r then f + 1 else if even f then f else f + 1)"

text \<open>
  Rounding a real result to the nearest double, ties to the even significand: 53
  binary digits for a normal number, multiples of \<open>2^-1074\<close> below \<open>2^-1022\<close>, and an
  infinity from \<open>2^1024 - 2^970\<close> on.
\<close>

definition rnd :: "rat \<Rightarrow> double" where
  "rnd x =
     (if x = 0 then Fin 0
      else
        (let e = ilog2 \<bar>x\<bar> in
         if 1024 \<le> e then (if 0 < x then PosInf else NegInf)
         else
           (let q = pow2 (max e (- 1022) - 52);
                n = round_half_even (\<bar>x\<bar> / q)
            in if e = 1023 \<and> n = 2 ^ 53 then (if 0 < x then PosInf else NegInf)
               else Fin ((if 0 < x then 1 else - 1) * (of_int n * q)))))"

text \<open>A number of the JSON text as \<^verbatim>\<open>resp.json()\<close> delivers it, and a nullable one.\<close>

definition number :: "rat \<Rightarrow> double" where
  "number x = rnd x"

definition num :: "rat option \<Rightarrow> double option" where
  "num v = map_option number v"

text \<open>The operators \<^verbatim>\<open>+\<close>, \<^verbatim>\<open>-\<close>, \<^verbatim>\<open>*\<close> and \<^verbatim>\<open>/\<close> on numbers.\<close>

fun js_neg :: "double \<Rightarrow> double" where
  "js_neg (Fin a) = Fin (- a)"
| "js_neg PosInf = NegInf"
| "js_neg NegInf = PosInf"
| "js_neg NaN = NaN"

fun js_add :: "double \<Rightarrow> double \<Rightarrow> double" where
  "js_add (Fin a) (Fin b) = rnd (a + b)"
| "js_add NaN y = NaN"
| "js_add x NaN = NaN"
| "js_add PosInf NegInf = NaN"
| "js_add NegInf PosInf = NaN"
| "js_add PosInf y = PosInf"
| "js_add NegInf y = NegInf"
| "js_add x PosInf = PosInf"
| "js_add x NegInf = NegInf"

definition js_sub :: "double \<Rightarrow> double \<Rightarrow> double" where
  "js_sub x y = js_add x (js_neg y)"

text \<open>The sign of a number that is not \<^verbatim>\<open>NaN\<close>.\<close>

fun js_sign :: "double \<Rightarrow> int" where
  "js_sign (Fin a) = (if a = 0 then 0 else if 0 < a then 1 else - 1)"
| "js_sign PosInf = 1"
| "js_sign NegInf = - 1"
| "js_sign NaN = 0"

fun js_mul :: "double \<Rightarrow> double \<Rightarrow> double" where
  "js_mul (Fin a) (Fin b) = rnd (a * b)"
| "js_mul NaN y = NaN"
| "js_mul x NaN = NaN"
| "js_mul x y =
     (if js_sign x * js_sign y = 0 then NaN
      else if 0 < js_sign x * js_sign y then PosInf else NegInf)"

text \<open>
  Division. The builders divide by \<^verbatim>\<open>10\<close> and by a positive count only; a zero
  divisor is taken as positive zero.
\<close>

fun js_div :: "double \<Rightarrow> double \<Rightarrow> double" where
  "js_div (Fin a) (Fin b) =
     (if b = 0 then (if a = 0 then NaN else if 0 < a then PosInf else NegInf)
      else rnd (a / b))"
| "js_div NaN y = NaN"
| "js_div x NaN = NaN"
| "js_div (Fin a) y = Fin 0"
| "js_div x (Fin b) = (if 0 \<le> b then x else js_neg x)"
| "js_div x y = NaN"

text \<open>The comparisons \<^verbatim>\<open><\<close>, \<^verbatim>\<open>>\<close>, \<^verbatim>\<open><=\<close> and \<^verbatim>\<open>>=\<close>: all false on \<^verbatim>\<open>NaN\<close>.\<close>

fun js_lt :: "double \<Rightarrow> double \<Rightarrow> bool" where
  "js_lt (Fin a) (Fin b) = (a < b)"
| "js_lt NaN y = False"
| "js_lt x NaN = False"
| "js_lt x NegInf = False"
| "js_lt PosInf y = False"
| "js_lt x y = True"

definition js_gt :: "double \<Rightarrow> double \<Rightarrow> bool" where
  "js_gt x y = js_lt y x"

definition js_le :: "double \<Rightarrow> double \<Rightarrow> bool" where
  "js_le x y = (x \<noteq> NaN \<and> y \<noteq> NaN \<and> (js_lt x y \<or> x = y))"

definition js_ge :: "double \<Rightarrow> double \<Rightarrow> bool" where
  "js_ge x y = js_le y x"

text \<open>\<^verbatim>\<open>Math.round\<close> (a tie goes towards plus infinity) and \<^verbatim>\<open>Math.abs\<close>.\<close>

fun math_round :: "double \<Rightarrow> double" where
  "math_round (Fin a) = Fin (of_int \<lfloor>a + 1 / 2\<rfloor>)"
| "math_round x = x"

fun math_abs :: "double \<Rightarrow> double" where
  "math_abs (Fin a) = Fin \<bar>a\<bar>"
| "math_abs NegInf = PosInf"
| "math_abs x = x"

text \<open>\<^verbatim>\<open>Math.round(x * 10) / 10\<close>\<close>

definition round1 :: "double \<Rightarrow> double" where
  "round1 x = js_div (math_round (js_mul x (Fin 10))) (Fin 10)"

text \<open>
  JavaScript truthiness, as used by \<^verbatim>\<open>if (avgRank)\<close> and \<^verbatim>\<open>a && b\<close>: \<^verbatim>\<open>null\<close>, \<^verbatim>\<open>0\<close>
  and \<^verbatim>\<open>NaN\<close> are falsy for numbers, \<^verbatim>\<open>null\<close> and the empty string for strings.
\<close>

definition truthy :: "double option \<Rightarrow> bool" where
  "truthy v = (case v of None \<Rightarrow> False | Some (Fin x) \<Rightarrow> x \<noteq> 0 | Some NaN \<Rightarrow> False | Some _ \<Rightarrow> True)"

definition truthy_str :: "string option \<Rightarrow> bool" where
  "truthy_str v = (case v of None \<Rightarrow> False | Some s \<Rightarrow> s \<noteq> [])"


section \<open>Values read from the scan API\<close>

text \<open>
  The records of the API as the JSON text has them: a number is the rational written
  there, and \<open>None\<close> is \<^verbatim>\<open>null\<close> (or a missing property). \<open>business_name\<close> is
  \<^verbatim>\<open>scan.business?.name\<close>. The creation time is carried as a point in time (an integer,
  larger is later); the code never inspects it.
\<close>

record keyword_result =
  keyword :: string
  kw_avg_rank :: "rat option"
  best_rank :: "rat option"

record scan =
  uuid :: string
  business_name :: "string option"
  avg_rank :: "rat option"
  created_at :: int
  public_share_token :: "string option"

record scan_detail = scan +
  keyword_results :: "keyword_result list"

datatype error = TypeError | ApiError | UsageError

text \<open>A loop whose body may throw: the first error ends it.\<close>

fun for_each :: "('s \<Rightarrow> 'a \<Rightarrow> error + 's) \<Rightarrow> 's \<Rightarrow> 'a list \<Rightarrow> error + 's" where
  "for_each f s [] = Inr s"
| "for_each f s (x # xs) = (case f s x of Inl e \<Rightarrow> Inl e | Inr s' \<Rightarrow> for_each f s' xs)"

section \<open>Plain objects used as dictionaries\<close>

text \<open>
  \<^verbatim>\<open>const byBusiness = {}\<close> is an ordinary object: its own properties are kept here as
  an association list in insertion order. Reading a key that is not an own property
  falls through to \<^verbatim>\<open>Object.prototype\<close>, whose members are all truthy and none of
  which is an array.
\<close>

definition object_prototype_keys :: "string list" where
  "object_prototype_keys =
     [''constructor'', ''__defineGetter__'', ''__defineSetter__'', ''hasOwnProperty'',
      ''__lookupGetter__'', ''__lookupSetter__'', ''isPrototypeOf'',
      ''propertyIsEnumerable'', ''toString'', ''valueOf'', ''__proto__'',
      ''toLocaleString'']"

text \<open>
  \<^verbatim>\<open>Object.entries\<close> lists the keys that are array indices (canonical decimal numerals
  below \<open>2^32 - 1 = 4294967295\<close>) first, in ascending numeric order, and then the other
  string keys in insertion order.
\<close>

definition index_value :: "string \<Rightarrow> int" where
  "index_value s = foldl (\<lambda>n c. 10 * n + (of_char c - 48)) 0 s"

definition is_array_index :: "string \<Rightarrow> bool" where
  "is_array_index s \<longleftrightarrow>
     s \<noteq> [] \<and> list_all (\<lambda>c. c \<in> set ''0123456789'') s \<and>
     (s = ''0'' \<or> hd s \<noteq> CHR ''0'') \<and> index_value s < 4294967295"

definition object_entries :: "(string \<times> 'v) list \<Rightarrow> (string \<times> 'v) list" where
  "object_entries obj =
     sort_key (\<lambda>p. index_value (fst p)) (filter (\<lambda>p. is_array_index (fst p)) obj) @
     filter (\<lambda>p. \<not> is_array_index (fst p)) obj"

section \<open>Grouping the scans by business\<close>

text \<open>\<^verbatim>\<open>scan.business?.name || 'Unknown'\<close>\<close>

definition business_key :: "'a scan_scheme \<Rightarrow> string" where
  "business_key scan =
     (if truthy_str (business_name scan) then the (business_name scan) else ''Unknown'')"

text \<open>
  The body of \<^verbatim>\<open>results.forEach(scan => {...})\<close>:
  \<^verbatim>\<open>if (!byBusiness[name]) byBusiness[name] = []; byBusiness[name].push(scan);\<close>
  For a name that is a member of \<^verbatim>\<open>Object.prototype\<close> and not yet an own property,
  \<^verbatim>\<open>byBusiness[name]\<close> is truthy, nothing is assigned, and \<^verbatim>\<open>.push\<close> is undefined:
  the call throws a TypeError.
\<close>

definition push_scan :: "(string \<times> scan list) list \<Rightarrow> scan \<Rightarrow> error + (string \<times> scan list) list" where
  "push_scan obj scan =
     (let name = business_key scan in
      case map_of obj name of
        Some _ \<Rightarrow> Inr (map (\<lambda>(k, v). if k = name then (k, v @ [scan]) else (k, v)) obj)
      | None \<Rightarrow>
          if name \<in> set object_prototype_keys then Inl TypeError
          else Inr (obj @ [(name, [scan])]))"

definition byBusiness :: "scan list \<Rightarrow> error + (string \<times> scan list) list" where
  "byBusiness results = for_each push_scan [] results"

section \<open>at-risk:clients\<close>

text \<open>
  A risk factor stands for the message pushed onto \<^verbatim>\<open>riskFactors\<close>:
  \<open>RankingsDropped p a\<close> for \<^verbatim>\<open>Rankings dropped from p to a\<close>, \<open>PoorVisibility a\<close> for
  \<^verbatim>\<open>Poor visibility (avg rank a)\<close>, \<open>LowEngagement\<close> for \<^verbatim>\<open>Only 1 scan - low engagement\<close>.
\<close>

datatype risk_factor = RankingsDropped double double | PoorVisibility double | LowEngagement

record at_risk_client =
  ar_business_name :: string
  risk_score :: nat
  risk_factors :: "risk_factor list"
  action :: string

text \<open>The three checks of the loop body, each on the pair \<open>(riskFactors, riskScore)\<close>.\<close>

definition rankings_dropped :: "scan list \<Rightarrow> risk_factor list \<times> nat \<Rightarrow> risk_factor list \<times> nat" where
  "rankings_dropped scans st =
     (let avgRank = num (avg_rank (scans ! 0)) in
      if length scans \<ge> 2 then
        (let prev = num (avg_rank (scans ! 1)) in
         if truthy avgRank \<and> truthy prev \<and> js_gt (js_sub (the avgRank) (the prev)) (Fin 2)
         then (fst st @ [RankingsDropped (round1 (the prev)) (round1 (the avgRank))], snd st + 3)
         else st)
      else st)"

definition poor_rankings :: "scan list \<Rightarrow> risk_factor list \<times> nat \<Rightarrow> risk_factor list \<times> nat" where
  "poor_rankings scans st =
     (let avgRank = num (avg_rank (scans ! 0)) in
      if truthy avgRank \<and> js_gt (the avgRank) (Fin 15)
      then (fst st @ [PoorVisibility (round1 (the avgRank))], snd st + 2)
      else st)"

definition low_engagement :: "scan list \<Rightarrow> risk_factor list \<times> nat \<Rightarrow> risk_factor list \<times> nat" where
  "low_engagement scans st =
     (if length scans = 1 then (fst st @ [LowEngagement], snd st + 1) else st)"

definition risk_assessment :: "scan list \<Rightarrow> risk_factor list \<times> nat" where
  "risk_assessment scans = low_engagement scans (poor_rankings scans (rankings_dropped scans ([], 0)))"

text \<open>
  The callback of \<^verbatim>\<open>Object.entries(byBusiness).forEach\<close>. On an empty group
  \<^verbatim>\<open>scans[0]\<close> would be undefined and \<^verbatim>\<open>latest.avg_rank\<close> would throw.
\<close>

definition at_risk_step :: "at_risk_client list \<Rightarrow> string \<times> scan list \<Rightarrow> error + at_risk_client list" where
  "at_risk_step atRisk entry =
     (let name = fst entry; scans = snd entry in
      if scans = [] then Inl TypeError
      else
        (let riskFactors = fst (risk_assessment scans); riskScore = snd (risk_assessment scans) in
         if riskScore > 0
         then Inr (atRisk @ [\<lparr>ar_business_name = name, risk_score = riskScore,
                               risk_factors = riskFactors, action = ''Reach out proactively''\<rparr>])
         else Inr atRisk))"

text \<open>
  \<^verbatim>\<open>atRisk.sort((a, b) => b.risk_score - a.risk_score)\<close>: \<^verbatim>\<open>Array.prototype.sort\<close> is
  stable, so this is a stable sort on the negated score.
\<close>

definition at_risk_clients :: "scan list \<Rightarrow> error + at_risk_client list" where
  "at_risk_clients results =
     (case byBusiness results of
        Inl e \<Rightarrow> Inl e
      | Inr obj \<Rightarrow>
          (case for_each at_risk_step [] (object_entries obj) of
             Inl e \<Rightarrow> Inl e
           | Inr atRisk \<Rightarrow> Inr (sort_key (\<lambda>a. - int (risk_score a)) atRisk)))"

section \<open>portfolio:summary\<close>

datatype status = New | Improving | Declining | Stable

text \<open>
  The \<^verbatim>\<open>view_url\<close> property of a report: not set at all, set to \<^verbatim>\<open>null\<close>, or set to
  the share link \<^verbatim>\<open>https://app.localrank.so/share/<token>\<close>.
\<close>

datatype view_url = Omitted | Null | Url string

definition share_url :: "string \<Rightarrow> string" where
  "share_url token = ''https://app.localrank.so/share/'' @ token"

text \<open>
  The records below are the objects handed to \<^verbatim>\<open>JSON.stringify\<close>. A field of option
  type is a value that may be \<^verbatim>\<open>null\<close>. (A number that is not finite is printed as
  \<^verbatim>\<open>null\<close> too; the printing is not modelled.)
\<close>

record portfolio_client =
  pc_name :: string
  pc_status :: status
  pc_avg_rank :: "double option"
  pc_change :: "double option"
  pc_view_url :: view_url

record summary =
  total_clients :: nat
  total_scans :: nat
  improving :: nat
  declining :: nat
  stable :: nat
  clients :: "portfolio_client list"

text \<open>The summary together with the loop's locals \<^verbatim>\<open>totalRank\<close> and \<^verbatim>\<open>rankCount\<close>.\<close>

record portfolio_vars = summary +
  totalRank :: double
  rankCount :: nat

text \<open>The summary as printed, after \<^verbatim>\<open>summary.avg_rank_across_portfolio = ...\<close>.\<close>

record portfolio_report = summary +
  avg_rank_across_portfolio :: "double option"

text \<open>
  \<^verbatim>\<open>let status = 'new', change = null; if (scans.length >= 2) {...}\<close>: the status, the
  change and the updated counters.
\<close>

definition classify :: "scan list \<Rightarrow> portfolio_vars \<Rightarrow> status \<times> double option \<times> portfolio_vars" where
  "classify scans vars =
     (let avgRank = num (avg_rank (scans ! 0)) in
      if length scans \<ge> 2 then
        (let prev = num (avg_rank (scans ! 1)) in
         if truthy avgRank \<and> truthy prev then
           (let change = js_sub (the prev) (the avgRank) in
            if js_gt change (Fin (1 / 2))
            then (Improving, Some change, vars\<lparr>improving := improving vars + 1\<rparr>)
            else if js_lt change (Fin (- (1 / 2)))
            then (Declining, Some change, vars\<lparr>declining := declining vars + 1\<rparr>)
            else (Stable, Some change, vars\<lparr>stable := stable vars + 1\<rparr>))
         else (New, None, vars))
      else (New, None, vars))"

definition portfolio_step :: "portfolio_vars \<Rightarrow> string \<times> scan list \<Rightarrow> error + portfolio_vars" where
  "portfolio_step vars entry =
     (let name = fst entry; scans = snd entry in
      if scans = [] then Inl TypeError
      else
        (let latest = scans ! 0;
             avgRank = num (avg_rank latest);
             vars1 = (if truthy avgRank
                      then vars\<lparr>totalRank := js_add (totalRank vars) (the avgRank),
                                rankCount := rankCount vars + 1\<rparr>
                      else vars);
             status = fst (classify scans vars1);
             change = fst (snd (classify scans vars1));
             vars2 = snd (snd (classify scans vars1))
         in Inr (vars2\<lparr>clients := clients vars2 @
              [\<lparr>pc_name = name,
                pc_status = status,
                pc_avg_rank = (if truthy avgRank then Some (round1 (the avgRank)) else None),
                pc_change = (if truthy change then Some (round1 (the change)) else None),
                pc_view_url = (if truthy_str (public_share_token latest)
                               then Url (share_url (the (public_share_token latest)))
                               else Null)\<rparr>]\<rparr>)))"

text \<open>\<^verbatim>\<open>const order = { declining: 0, improving: 1, stable: 2, new: 3 }\<close>\<close>

fun order :: "status \<Rightarrow> int" where
  "order Declining = 0"
| "order Improving = 1"
| "order Stable = 2"
| "order New = 3"

definition portfolio_summary :: "scan list \<Rightarrow> error + portfolio_report" where
  "portfolio_summary results =
     (case byBusiness results of
        Inl e \<Rightarrow> Inl e
      | Inr obj \<Rightarrow>
          (case for_each portfolio_step
                  \<lparr>total_clients = length obj, total_scans = length results,
                   improving = 0, declining = 0, stable = 0, clients = [],
                   totalRank = Fin 0, rankCount = 0\<rparr>
                  (object_entries obj) of
             Inl e \<Rightarrow> Inl e
           | Inr vars \<Rightarrow>
               Inr \<lparr>total_clients = total_clients vars, total_scans = total_scans vars,
                    improving = improving vars, declining = declining vars,
                    stable = stable vars,
                    clients = sort_key (\<lambda>c. order (pc_status c)) (clients vars),
                    avg_rank_across_portfolio =
                      (if rankCount vars > 0
                       then Some (round1 (js_div (totalRank vars) (Fin (of_nat (rankCount vars)))))
                       else None)\<rparr>))"

section \<open>The scan detail endpoint\<close>

text \<open>
  \<^verbatim>\<open>await apiGet(`/api/scans/${uuid}/`)\<close> either returns the detail of the scan or
  throws; the endpoint is a parameter of the report builders that call it.
\<close>

type_synonym api = "string \<Rightarrow> error + scan_detail"

section \<open>prioritize:today\<close>





text \<open>\<^verbatim>\<open>kw.avg_rank && kw.avg_rank >= 11 && kw.avg_rank <= 15\<close>\<close>

definition daily_quick_win_check :: "keyword_result \<Rightarrow> bool" where
  "daily_quick_win_check kw \<longleftrightarrow>
     truthy (num (kw_avg_rank kw)) \<and> js_ge (the (num (kw_avg_rank kw))) (Fin 11) \<and>
     js_le (the (num (kw_avg_rank kw))) (Fin 15)"



section \<open>Filtering by business name\<close>

text \<open>
  \<^verbatim>\<open>s.business?.name?.toLowerCase().includes(term)\<close>. \<^verbatim>\<open>String.prototype.toLowerCase\<close>
  maps by the case tables of Unicode, which are the engine's and not the
  repository's: the mapping is the parameter \<open>toLowerCase\<close> of the builders that filter
  by name. \<^verbatim>\<open>includes\<close> looks for a contiguous occurrence.
\<close>

fun includes_str :: "string \<Rightarrow> string \<Rightarrow> bool" where
  "includes_str [] t = (t = [])"
| "includes_str (c # s) t = (take (length t) (c # s) = t \<or> includes_str s t)"

definition name_matches :: "(string \<Rightarrow> string) \<Rightarrow> string \<Rightarrow> 'a scan_scheme \<Rightarrow> bool" where
  "name_matches toLowerCase searchTerm s =
     (case business_name s of
        None \<Rightarrow> False
      | Some n \<Rightarrow> includes_str (toLowerCase n) searchTerm)"

section \<open>quick-wins:find\<close>




text \<open>\<^verbatim>\<open>kw.avg_rank && kw.avg_rank >= 11 && kw.avg_rank <= 20\<close>\<close>

definition quick_win_check :: "keyword_result \<Rightarrow> bool" where
  "quick_win_check kw \<longleftrightarrow>
     truthy (num (kw_avg_rank kw)) \<and> js_ge (the (num (kw_avg_rank kw))) (Fin 11) \<and>
     js_le (the (num (kw_avg_rank kw))) (Fin 20)"




section \<open>client:report\<close>

record report_keyword =
  rk_keyword :: string
  rk_avg_rank :: "double option"
  rk_best_rank :: "double option"

record latest_scan =
  date :: int
  ls_avg_rank :: "double option"
  ls_keywords :: "report_keyword list"

record win =
  w_keyword :: string
  w_from :: double
  w_to :: double
  improved_by :: double

record drop =
  d_keyword :: string
  d_from :: double
  d_to :: double
  dropped_by :: double

text \<open>
  The properties of the \<^verbatim>\<open>report\<close> object literal, in order, and \<^verbatim>\<open>view_url\<close>, which
  is assigned afterwards or not at all.
\<close>

record client_report =
  cr_business_name :: "string option"
  cr_latest_scan :: latest_scan
  wins :: "win list"
  drops :: "drop list"
  cr_total_scans :: nat
  cr_view_url :: view_url

datatype client_report_output = NoScansFound string | Report client_report

text \<open>
  \<^verbatim>\<open>prevKwRanks[kw.keyword] = kw.avg_rank\<close> on the object \<^verbatim>\<open>prevKwRanks = {}\<close>: the
  own properties and whether the prototype has been set to \<^verbatim>\<open>null\<close>. Assigning to the
  key \<^verbatim>\<open>__proto__\<close> runs the inherited setter, which ignores a number and takes
  \<^verbatim>\<open>null\<close> as the new prototype; once the prototype is \<^verbatim>\<open>null\<close> the key is an ordinary one.
\<close>

definition set_prev_rank ::
  "(string \<rightharpoonup> double option) \<times> bool \<Rightarrow> keyword_result \<Rightarrow> (string \<rightharpoonup> double option) \<times> bool" where
  "set_prev_rank st kw =
     (if keyword kw = ''__proto__'' \<and> \<not> snd st
      then (if num (kw_avg_rank kw) = None then (fst st, True) else st)
      else ((fst st)(keyword kw \<mapsto> num (kw_avg_rank kw)), snd st))"

text \<open>
  \<^verbatim>\<open>prevKwRanks[kw.keyword]\<close> as far as the comparison can tell: the rank stored under
  the key, and \<open>None\<close> for \<^verbatim>\<open>null\<close>, for \<^verbatim>\<open>undefined\<close> and for an inherited member of
  \<^verbatim>\<open>Object.prototype\<close> (with such a member \<^verbatim>\<open>prev - current\<close> is \<^verbatim>\<open>NaN\<close>, neither above
  nor below zero).
\<close>

definition get_prev_rank :: "(string \<rightharpoonup> double option) \<times> bool \<Rightarrow> string \<Rightarrow> double option" where
  "get_prev_rank st k =
     (if k = ''__proto__'' \<and> \<not> snd st then None
      else (case fst st k of None \<Rightarrow> None | Some v \<Rightarrow> v))"

definition compare_keyword ::
  "(string \<rightharpoonup> double option) \<times> bool \<Rightarrow> client_report \<Rightarrow> keyword_result \<Rightarrow> client_report" where
  "compare_keyword prevKwRanks report kw =
     (let prev = get_prev_rank prevKwRanks (keyword kw);
          current = num (kw_avg_rank kw) in
      if truthy prev \<and> truthy current then
        (let change = js_sub (the prev) (the current) in
         if js_gt change (Fin 0)
         then report\<lparr>wins := wins report @
                [\<lparr>w_keyword = keyword kw, w_from = the prev, w_to = the current,
                  improved_by = round1 change\<rparr>]\<rparr>
         else if js_lt change (Fin 0)
         then report\<lparr>drops := drops report @
                [\<lparr>d_keyword = keyword kw, d_from = the prev, d_to = the current,
                  dropped_by = round1 (math_abs change)\<rparr>]\<rparr>
         else report)
      else report)"

text \<open>\<^verbatim>\<open>if (clientScans.length >= 2) {...}\<close>: the comparison with the previous scan.\<close>

definition compare_with_previous :: "api \<Rightarrow> scan list \<Rightarrow> scan_detail \<Rightarrow> client_report \<Rightarrow> error + client_report" where
  "compare_with_previous api clientScans latestDetail report =
     (if length clientScans \<ge> 2 then
        (case api (uuid (clientScans ! 1)) of
           Inl e \<Rightarrow> Inl e
         | Inr previousDetail \<Rightarrow>
             (let prevKwRanks = foldl set_prev_rank (Map.empty, False) (keyword_results previousDetail)
              in Inr (foldl (compare_keyword prevKwRanks) report (keyword_results latestDetail))))
      else Inr report)"

definition client_report ::
  "(string \<Rightarrow> string) \<Rightarrow> api \<Rightarrow> string \<Rightarrow> scan list \<Rightarrow> error + client_report_output" where
  "client_report toLowerCase api businessName results =
     (if businessName = [] then Inl UsageError
      else
        (let searchTerm = toLowerCase businessName;
             clientScans = filter (name_matches toLowerCase searchTerm) results in
         if length clientScans = 0 then Inr (NoScansFound businessName)
         else
           (let latest = clientScans ! 0 in
            case api (uuid latest) of
              Inl e \<Rightarrow> Inl e
            | Inr latestDetail \<Rightarrow>
                (let report =
                       \<lparr>cr_business_name = business_name latest,
                        cr_latest_scan =
                          \<lparr>date = created_at latestDetail,
                           ls_avg_rank = num (avg_rank latestDetail),
                           ls_keywords =
                             map (\<lambda>kw. \<lparr>rk_keyword = keyword kw,
                                         rk_avg_rank = num (kw_avg_rank kw),
                                         rk_best_rank = num (best_rank kw)\<rparr>)
                                 (keyword_results latestDetail)\<rparr>,
                        wins = [], drops = [],
                        cr_total_scans = length clientScans,
                        cr_view_url = Omitted\<rparr>
                 in case compare_with_previous api clientScans latestDetail report of
                      Inl e \<Rightarrow> Inl e
                    | Inr report \<Rightarrow>
                        Inr (Report
                          (if truthy_str (public_share_token latestDetail)
                           then report\<lparr>cr_view_url :=
                                  Url (share_url (the (public_share_token latestDetail)))\<rparr>
                           else report))))))"

section \<open>Notions used in the statements\<close>

text \<open>The scans stored under a name of the grouping object, none when the name is absent.\<close>

definition group_of :: "(string \<times> scan list) list \<Rightarrow> string \<Rightarrow> scan list" where
  "group_of obj n = (case map_of obj n of None \<Rightarrow> [] | Some ss \<Rightarrow> ss)"

text \<open>The weights of the risk factors: the amounts added to \<^verbatim>\<open>riskScore\<close>.\<close>

fun factor_weight :: "risk_factor \<Rightarrow> nat" where
  "factor_weight (RankingsDropped p a) = 3"
| "factor_weight (PoorVisibility a) = 2"
| "factor_weight LowEngagement = 1"

text \<open>The object pushed onto \<^verbatim>\<open>atRisk\<close> for an entry of the grouping.\<close>

definition at_risk_entry :: "string \<times> scan list \<Rightarrow> at_risk_client" where
  "at_risk_entry e =
     \<lparr>ar_business_name = fst e, risk_score = snd (risk_assessment (snd e)),
      risk_factors = fst (risk_assessment (snd e)), action = ''Reach out proactively''\<rparr>"

text \<open>
  The \<^verbatim>\<open>change\<close> of the portfolio summary, \<^verbatim>\<open>prev - avgRank\<close>: it exists when there are
  at least two scans and both average ranks are truthy.
\<close>

definition rank_change :: "scan list \<Rightarrow> double option" where
  "rank_change scans =
     (if 2 \<le> length scans \<and> truthy (num (avg_rank (scans ! 0))) \<and>
         truthy (num (avg_rank (scans ! 1)))
      then Some (js_sub (the (num (avg_rank (scans ! 1)))) (the (num (avg_rank (scans ! 0)))))
      else None)"

text \<open>The object pushed onto \<^verbatim>\<open>summary.clients\<close> for an entry of the grouping.\<close>

definition portfolio_entry :: "string \<times> scan list \<Rightarrow> portfolio_client" where
  "portfolio_entry e =
     \<lparr>pc_name = fst e,
      pc_status =
        (case rank_change (snd e) of
           None \<Rightarrow> New
         | Some d \<Rightarrow>
             if js_gt d (Fin (1 / 2)) then Improving
             else if js_lt d (Fin (- (1 / 2))) then Declining else Stable),
      pc_avg_rank =
        (if truthy (num (avg_rank (snd e ! 0)))
         then Some (round1 (the (num (avg_rank (snd e ! 0))))) else None),
      pc_change =
        (if truthy (rank_change (snd e)) then Some (round1 (the (rank_change (snd e)))) else None),
      pc_view_url =
        (if truthy_str (public_share_token (snd e ! 0))
         then Url (share_url (the (public_share_token (snd e ! 0))))
         else Null)\<rparr>"






text \<open>Replacing every average rank 0 of the input by \<^verbatim>\<open>null\<close>.\<close>

definition null_zero :: "rat option \<Rightarrow> rat option" where
  "null_zero v = (if v = Some 0 then None else v)"

definition scan_null_zero :: "scan \<Rightarrow> scan" where
  "scan_null_zero s = s\<lparr>avg_rank := null_zero (avg_rank s)\<rparr>"

definition keyword_null_zero :: "keyword_result \<Rightarrow> keyword_result" where
  "keyword_null_zero kw = kw\<lparr>kw_avg_rank := null_zero (kw_avg_rank kw)\<rparr>"




section \<open>Sample inputs\<close>

text \<open>
  The lower-case mapping on the letters A to Z, which is what \<^verbatim>\<open>toLowerCase\<close> does to
  the names of the samples.
\<close>

definition ascii_lower :: "string \<Rightarrow> string" where
  "ascii_lower s =
     map (\<lambda>c. if (65::int) \<le> of_char c \<and> of_char c \<le> (90::int)
              then char_of (of_char c + (32::int)) else c) s"

text \<open>A sample scan list, most recent first, and what the builders make of it.\<close>

definition example_scan :: "string \<Rightarrow> string \<Rightarrow> rat option \<Rightarrow> int \<Rightarrow> scan" where
  "example_scan u n r t =
     \<lparr>uuid = u, business_name = Some n, avg_rank = r, created_at = t,
      public_share_token = None\<rparr>"

definition example_results :: "scan list" where
  "example_results =
     [example_scan ''s7'' ''Acme'' (Some 5) 7,
      example_scan ''s6'' ''Bob'' (Some 16) 6,
      example_scan ''s5'' ''Carl'' (Some 16) 5,
      example_scan ''s4'' ''Acme'' (Some 0) 4,
      example_scan ''s3'' ''Carl'' (Some 10) 3,
      example_scan ''s2'' ''Dan'' (Some 18) 2,
      example_scan ''s1'' ''Eve'' (Some 17) 1]"

definition example_groups :: "(string \<times> scan list) list" where
  "example_groups =
     [(''Acme'', [example_scan ''s7'' ''Acme'' (Some 5) 7, example_scan ''s4'' ''Acme'' (Some 0) 4]),
      (''Bob'', [example_scan ''s6'' ''Bob'' (Some 16) 6]),
      (''Carl'', [example_scan ''s5'' ''Carl'' (Some 16) 5, example_scan ''s3'' ''Carl'' (Some 10) 3]),
      (''Dan'', [example_scan ''s2'' ''Dan'' (Some 18) 2]),
      (''Eve'', [example_scan ''s1'' ''Eve'' (Some 17) 1])]"

definition example_at_risk :: "at_risk_client list" where
  "example_at_risk =
     [\<lparr>ar_business_name = ''Carl'', risk_score = 5,
       risk_factors = [RankingsDropped (Fin 10) (Fin 16), PoorVisibility (Fin 16)],
       action = ''Reach out proactively''\<rparr>,
      \<lparr>ar_business_name = ''Bob'', risk_score = 3,
       risk_factors = [PoorVisibility (Fin 16), LowEngagement],
       action = ''Reach out proactively''\<rparr>,
      \<lparr>ar_business_name = ''Dan'', risk_score = 3,
       risk_factors = [PoorVisibility (Fin 18), LowEngagement],
       action = ''Reach out proactively''\<rparr>,
      \<lparr>ar_business_name = ''Eve'', risk_score = 3,
       risk_factors = [PoorVisibility (Fin 17), LowEngagement],
       action = ''Reach out proactively''\<rparr>]"

definition example_summary :: portfolio_report where
  "example_summary =
     \<lparr>total_clients = 5, total_scans = 7, improving = 0, declining = 1, stable = 0,
      clients =
        [\<lparr>pc_name = ''Carl'', pc_status = Declining, pc_avg_rank = Some (Fin 16),
          pc_change = Some (Fin (- 6)), pc_view_url = Null\<rparr>,
         \<lparr>pc_name = ''Acme'', pc_status = New, pc_avg_rank = Some (Fin 5),
          pc_change = None, pc_view_url = Null\<rparr>,
         \<lparr>pc_name = ''Bob'', pc_status = New, pc_avg_rank = Some (Fin 16),
          pc_change = None, pc_view_url = Null\<rparr>,
         \<lparr>pc_name = ''Dan'', pc_status = New, pc_avg_rank = Some (Fin 18),
          pc_change = None, pc_view_url = Null\<rparr>,
         \<lparr>pc_name = ''Eve'', pc_status = New, pc_avg_rank = Some (Fin 17),
          pc_change = None, pc_view_url = Null\<rparr>],
      avg_rank_across_portfolio = Some (number (144 / 10))\<rparr>"

text \<open>Two scans of one business listed oldest first.\<close>

definition unsorted_results :: "scan list" where
  "unsorted_results =
     [example_scan ''s1'' ''Acme'' (Some 10) 1, example_scan ''s2'' ''Acme'' (Some 5) 2]"

text \<open>A business whose name is a member of \<^verbatim>\<open>Object.prototype\<close>.\<close>

definition prototype_named_results :: "scan list" where
  "prototype_named_results = [example_scan ''s1'' ''constructor'' (Some 4) 1]"

text \<open>Three businesses with one scan each, two of them with names that are array indices.\<close>

definition index_named_results :: "scan list" where
  "index_named_results =
     [example_scan ''s3'' ''Zed'' (Some 5) 3, example_scan ''s2'' ''10'' (Some 5) 2,
      example_scan ''s1'' ''2'' (Some 5) 1]"

text \<open>
  A business whose previous average rank is missing, one whose previous average rank
  is 0, one whose rank went from 2.4 to 4.4, and one whose rank went from 1.1 to 0.6.
\<close>

definition null_previous_results :: "scan list" where
  "null_previous_results =
     [example_scan ''s2'' ''Acme'' (Some 5) 2, example_scan ''s1'' ''Acme'' None 1]"

definition zero_previous_results :: "scan list" where
  "zero_previous_results =
     [example_scan ''s2'' ''Acme'' (Some 5) 2, example_scan ''s1'' ''Acme'' (Some 0) 1]"

definition two_point_results :: "scan list" where
  "two_point_results =
     [example_scan ''s2'' ''Acme'' (Some (44 / 10)) 2, example_scan ''s1'' ''Acme'' (Some (24 / 10)) 1]"

definition half_point_results :: "scan list" where
  "half_point_results =
     [example_scan ''s2'' ''Acme'' (Some (6 / 10)) 2, example_scan ''s1'' ''Acme'' (Some (11 / 10)) 1]"

text \<open>A scan detail with keyword ranks around the quick-win windows, and an endpoint serving it.\<close>

definition example_keywords :: "keyword_result list" where
  "example_keywords =
     [\<lparr>keyword = ''dentist'', kw_avg_rank = Some (109 / 10), best_rank = Some 3\<rparr>,
      \<lparr>keyword = ''dental clinic'', kw_avg_rank = Some 11, best_rank = Some 4\<rparr>,
      \<lparr>keyword = ''teeth whitening'', kw_avg_rank = Some 15, best_rank = Some 9\<rparr>,
      \<lparr>keyword = ''orthodontist'', kw_avg_rank = Some 20, best_rank = Some 12\<rparr>,
      \<lparr>keyword = ''braces'', kw_avg_rank = Some (201 / 10), best_rank = None\<rparr>,
      \<lparr>keyword = ''implants'', kw_avg_rank = Some 0, best_rank = None\<rparr>,
      \<lparr>keyword = ''veneers'', kw_avg_rank = None, best_rank = None\<rparr>]"

definition example_detail :: "rat option \<Rightarrow> string option \<Rightarrow> scan_detail" where
  "example_detail r token =
     \<lparr>uuid = ''s7'', business_name = Some ''Acme'', avg_rank = r, created_at = 7,
      public_share_token = token, keyword_results = example_keywords\<rparr>"

definition example_api :: "rat option \<Rightarrow> string option \<Rightarrow> api" where
  "example_api r token u = (if u = ''s7'' then Inr (example_detail r token) else Inl ApiError)"



definition example_report :: "rat option \<Rightarrow> view_url \<Rightarrow> client_report" where
  "example_report r v =
     \<lparr>cr_business_name = Some ''Acme'',
      cr_latest_scan =
        \<lparr>date = 7, ls_avg_rank = num r,
         ls_keywords =
           map (\<lambda>kw. \<lparr>rk_keyword = keyword kw, rk_avg_rank = num (kw_avg_rank kw),
                       rk_best_rank = num (best_rank kw)\<rparr>) example_keywords\<rparr>,
      wins = [], drops = [], cr_total_scans = 1, cr_view_url = v\<rparr>"

text \<open>
  Two businesses whose names both contain \<^verbatim>\<open>acme\<close>, with one scan each, the endpoint
  serving their details, and the client report asked for \<^verbatim>\<open>Acme\<close>.
\<close>

definition overlapping_results :: "scan list" where
  "overlapping_results =
     [example_scan ''a1'' ''Acme'' (Some 4) 2, example_scan ''d1'' ''Acme Dental'' (Some 8) 1]"

definition overlapping_api :: api where
  "overlapping_api u =
     (if u = ''a1''
      then Inr \<lparr>uuid = ''a1'', business_name = Some ''Acme'', avg_rank = Some 4,
                created_at = 2, public_share_token = None,
                keyword_results =
                  [\<lparr>keyword = ''plumber'', kw_avg_rank = Some 4, best_rank = Some 1\<rparr>]\<rparr>
      else if u = ''d1''
      then Inr \<lparr>uuid = ''d1'', business_name = Some ''Acme Dental'', avg_rank = Some 8,
                created_at = 1, public_share_token = None,
                keyword_results =
                  [\<lparr>keyword = ''plumber'', kw_avg_rank = Some 8, best_rank = Some 5\<rparr>]\<rparr>
      else Inl ApiError)"

definition overlapping_report :: client_report where
  "overlapping_report =
     \<lparr>cr_business_name = Some ''Acme'',
      cr_latest_scan =
        \<lparr>date = 2, ls_avg_rank = Some (Fin 4),
         ls_keywords =
           [\<lparr>rk_keyword = ''plumber'', rk_avg_rank = Some (Fin 4), rk_best_rank = Some (Fin 1)\<rparr>]\<rparr>,
      wins = [\<lparr>w_keyword = ''plumber'', w_from = Fin 8, w_to = Fin 4, improved_by = Fin 4\<rparr>],
      drops = [], cr_total_scans = 2, cr_view_url = Omitted\<rparr>"

section \<open>The grouping\<close>

lemma map_fst_update_group:
  "map fst (map (\<lambda>(k, v). if k = n then (k, f v) else (k, v)) obj) = map fst obj"
  by (induction obj) auto

lemma map_of_update_group:
  "map_of (map (\<lambda>(k, v). if k = n then (k, f v) else (k, v)) obj) m =
     (if m = n then map_option f (map_of obj m) else map_of obj m)"
  by (induction obj) auto

lemma mset_update_group:
  "distinct (map fst obj) \<Longrightarrow> n \<in> fst ` set obj \<Longrightarrow>
   mset (concat (map snd (map (\<lambda>(k, v). if k = n then (k, v @ [s]) else (k, v)) obj))) =
     mset (concat (map snd obj)) + {#s#}"
proof (induction obj)
  case Nil
  then show ?case by simp
next
  case (Cons p obj)
  obtain k v where p: "p = (k, v)" by (cases p)
  show ?case
  proof (cases "k = n")
    case True
    with Cons.prems p have "n \<notin> fst ` set obj" by auto
    then have "map (\<lambda>(k, v). if k = n then (k, v @ [s]) else (k, v)) obj = obj"
      by (induction obj) auto
    with True p show ?thesis by simp
  next
    case False
    with Cons p show ?thesis by auto
  qed
qed

lemma push_scan_Inr:
  assumes "push_scan obj s = Inr obj'" and "distinct (map fst obj)"
  shows "distinct (map fst obj')"
    and "group_of obj' n = group_of obj n @ (if business_key s = n then [s] else [])"
    and "fst ` set obj' = insert (business_key s) (fst ` set obj)"
    and "mset (concat (map snd obj')) = mset (concat (map snd obj)) + {#s#}"
proof -
  show "distinct (map fst obj')"
  proof (cases "map_of obj (business_key s)")
    case None
    with assms show ?thesis
      by (auto simp: push_scan_def Let_def map_of_eq_None_iff split: if_splits)
  next
    case (Some ss)
    with assms(1)
    have "obj' = map (\<lambda>(k, v). if k = business_key s then (k, v @ [s]) else (k, v)) obj"
      by (simp add: push_scan_def Let_def)
    then have "map fst obj' = map fst obj"
      by (simp only: map_fst_update_group)
    with assms(2) show ?thesis by simp
  qed
  show "group_of obj' n = group_of obj n @ (if business_key s = n then [s] else [])"
  proof (cases "map_of obj (business_key s)")
    case None
    with assms(1) have "obj' = obj @ [(business_key s, [s])]"
      by (auto simp: push_scan_def Let_def split: if_splits)
    with None show ?thesis
      by (auto simp: group_of_def map_add_def split: option.splits)
  next
    case (Some ss)
    with assms(1)
    have "obj' = map (\<lambda>(k, v). if k = business_key s then (k, v @ [s]) else (k, v)) obj"
      by (simp add: push_scan_def Let_def)
    with Some show ?thesis
      by (auto simp: group_of_def map_of_update_group split: option.splits)
  qed
  show "fst ` set obj' = insert (business_key s) (fst ` set obj)"
  proof (cases "map_of obj (business_key s)")
    case None
    with assms show ?thesis
      by (auto simp: push_scan_def Let_def split: if_splits)
  next
    case (Some ss)
    then have "business_key s \<in> fst ` set obj"
      by (metis map_of_eq_None_iff option.distinct(1))
    moreover from Some assms(1)
    have "obj' = map (\<lambda>(k, v). if k = business_key s then (k, v @ [s]) else (k, v)) obj"
      by (simp add: push_scan_def Let_def)
    then have "map fst obj' = map fst obj"
      by (simp only: map_fst_update_group)
    then have "fst ` set obj' = fst ` set obj"
      by (metis set_map)
    ultimately show ?thesis by auto
  qed
  show "mset (concat (map snd obj')) = mset (concat (map snd obj)) + {#s#}"
  proof (cases "map_of obj (business_key s)")
    case None
    with assms show ?thesis
      by (auto simp: push_scan_def Let_def split: if_splits)
  next
    case (Some ss)
    then have mem: "business_key s \<in> fst ` set obj"
      by (metis map_of_eq_None_iff option.distinct(1))
    from Some assms(1)
    have "obj' = map (\<lambda>(k, v). if k = business_key s then (k, v @ [s]) else (k, v)) obj"
      by (simp add: push_scan_def Let_def)
    with mset_update_group [OF assms(2) mem, of s] show ?thesis
      by simp
  qed
qed

lemma for_each_push_scan:
  "for_each push_scan obj rs = Inr obj' \<Longrightarrow> distinct (map fst obj) \<Longrightarrow>
   distinct (map fst obj') \<and>
   (\<forall>n. group_of obj' n = group_of obj n @ filter (\<lambda>s. business_key s = n) rs) \<and>
   fst ` set obj' = fst ` set obj \<union> business_key ` set rs \<and>
   mset (concat (map snd obj')) = mset (concat (map snd obj)) + mset rs"
proof (induction rs arbitrary: obj)
  case Nil
  then show ?case by simp
next
  case (Cons r rs)
  from Cons.prems(1) obtain obj1 where
    step: "push_scan obj r = Inr obj1" and rest: "for_each push_scan obj1 rs = Inr obj'"
    by (auto split: sum.splits)
  note one = push_scan_Inr [OF step Cons.prems(2)]
  from Cons.IH [OF rest one(1)] one(2,3,4) show ?case
    by auto
qed

lemma byBusiness_groups:
  assumes "byBusiness results = Inr obj"
  shows "distinct (map fst obj)"
    and "(n, ss) \<in> set obj \<Longrightarrow> ss = filter (\<lambda>s. business_key s = n) results \<and> ss \<noteq> []"
    and "mset (concat (map snd obj)) = mset results"
proof -
  from assms have fe: "for_each push_scan [] results = Inr obj"
    by (simp add: byBusiness_def)
  note all = for_each_push_scan [OF fe, simplified]
  from all show d: "distinct (map fst obj)" by simp
  from all show "mset (concat (map snd obj)) = mset results" by simp
  assume mem: "(n, ss) \<in> set obj"
  with d have "map_of obj n = Some ss" by simp
  then have "group_of obj n = ss" by (simp add: group_of_def)
  with all have ss: "ss = filter (\<lambda>s. business_key s = n) results"
    by (simp add: group_of_def)
  from mem have "n \<in> fst ` set obj" by force
  with all have "n \<in> business_key ` set results" by simp
  then have "filter (\<lambda>s. business_key s = n) results \<noteq> []"
    by (auto simp: filter_empty_conv)
  with ss show "ss = filter (\<lambda>s. business_key s = n) results \<and> ss \<noteq> []" by simp
qed

lemma set_object_entries [simp]: "set (object_entries obj) = set obj"
  by (auto simp: object_entries_def)

lemma mset_object_entries: "mset (object_entries obj) = mset obj"
  by (simp add: object_entries_def)

lemma distinct_object_entries:
  "distinct (map fst obj) \<Longrightarrow> distinct (map fst (object_entries obj))"
proof -
  assume "distinct (map fst obj)"
  moreover have "mset (map fst (object_entries obj)) = mset (map fst obj)"
    by (simp add: mset_object_entries)
  ultimately show ?thesis
    by (metis mset_eq_imp_distinct_iff)
qed




lemma object_entries_no_index:
  "\<forall>e\<in>set obj. \<not> is_array_index (fst e) \<Longrightarrow> object_entries obj = obj"
  by (simp add: object_entries_def filter_empty_conv)

section \<open>The at-risk list\<close>

lemma for_each_at_risk_step:
  "\<forall>e\<in>set es. snd e \<noteq> [] \<Longrightarrow>
   for_each at_risk_step acc es =
     Inr (acc @ map at_risk_entry (filter (\<lambda>e. 0 < snd (risk_assessment (snd e))) es))"
  by (induction es arbitrary: acc) (simp_all add: at_risk_step_def at_risk_entry_def Let_def)

lemma risk_assessment_score:
  "snd (risk_assessment scans) =
       (if 2 \<le> length scans \<and> truthy (num (avg_rank (scans ! 0))) \<and>
           truthy (num (avg_rank (scans ! 1))) \<and>
           js_gt (js_sub (the (num (avg_rank (scans ! 0)))) (the (num (avg_rank (scans ! 1)))))
             (Fin 2)
        then 3 else 0) +
       (if truthy (num (avg_rank (scans ! 0))) \<and>
           js_gt (the (num (avg_rank (scans ! 0)))) (Fin 15)
        then 2 else 0) +
       (if length scans = 1 then 1 else 0)"
  by (simp add: risk_assessment_def low_engagement_def poor_rankings_def
        rankings_dropped_def Let_def)

lemma risk_assessment_weights:
  "sum_list (map factor_weight (fst (risk_assessment scans))) = snd (risk_assessment scans)"
  by (simp add: risk_assessment_def low_engagement_def poor_rankings_def
        rankings_dropped_def Let_def)

lemma risk_assessment_range:
  "snd (risk_assessment scans) \<in> {0, 1, 2, 3, 5}"
  by (simp add: risk_assessment_def low_engagement_def poor_rankings_def
        rankings_dropped_def Let_def)

lemma risk_assessment_exclusive:
  "\<not> (LowEngagement \<in> set (fst (risk_assessment scans)) \<and>
      (\<exists>p a. RankingsDropped p a \<in> set (fst (risk_assessment scans))))"
  by (auto simp: risk_assessment_def low_engagement_def poor_rankings_def
        rankings_dropped_def Let_def split: if_splits)

lemma at_risk_clients_Inr:
  assumes "byBusiness results = Inr obj"
  shows "at_risk_clients results =
     Inr (sort_key (\<lambda>a. - int (risk_score a))
            (map at_risk_entry
               (filter (\<lambda>e. 0 < snd (risk_assessment (snd e))) (object_entries obj))))"
proof -
  have "\<forall>e\<in>set (object_entries obj). snd e \<noteq> []"
    using byBusiness_groups(2) [OF assms] by auto
  from for_each_at_risk_step [OF this, of "[]"] assms show ?thesis
    by (simp add: at_risk_clients_def)
qed

lemma at_risk_clients_byBusiness:
  "at_risk_clients results = Inr out \<Longrightarrow> \<exists>obj. byBusiness results = Inr obj"
  by (auto simp: at_risk_clients_def split: sum.splits)

lemma example_grouped: "byBusiness example_results = Inr example_groups"
  by code_simp

lemma example_at_risk_clients: "at_risk_clients example_results = Inr example_at_risk"
  by code_simp

text \<open>
  C2, as stated, fails. A business whose average rank went from 0 to 5 has worsened
  by more than 2, yet no weight is added and the business is not in the output: the
  0 is falsy and the drop is not evaluated. A business whose average rank went from
  2.4 to 4.4 has worsened by 2 and no more, yet it scores 3: the difference of the
  two doubles is 2.0000000000000004.
\<close>

theorem risk_score_misses_zero_and_rounds:
  "at_risk_clients zero_previous_results = Inr [] \<and>
   at_risk_clients two_point_results =
     Inr [\<lparr>ar_business_name = ''Acme'', risk_score = 3,
           risk_factors = [RankingsDropped (number (24 / 10)) (number (44 / 10))],
           action = ''Reach out proactively''\<rparr>] \<and>
   js_sub (number (44 / 10)) (number (24 / 10)) = Fin (2 + 1 / 2 ^ 51)"
  by code_simp

text \<open>
  C2, amended. The risk score emitted for a business is the exact sum of the weights
  that apply to its scans: 3 when there are at least two scans, the latest and the
  previous average rank are both truthy (present, and neither 0 nor \<^verbatim>\<open>NaN\<close>) and their
  difference, latest minus previous as JavaScript computes it on doubles, is greater
  than 2; 2 when the latest average rank is truthy and greater than 15; 1 when there
  is exactly one scan. It is also the sum of the weights of the risk factors listed
  with it, so all three factors together would give 6.
\<close>

theorem risk_score_is_sum_of_weights:
  assumes "at_risk_clients results = Inr out" and "byBusiness results = Inr obj"
    and "c \<in> set out"
  shows "\<exists>scans. (ar_business_name c, scans) \<in> set obj \<and> scans \<noteq> [] \<and>
     risk_score c =
       (if 2 \<le> length scans \<and> truthy (num (avg_rank (scans ! 0))) \<and>
           truthy (num (avg_rank (scans ! 1))) \<and>
           js_gt (js_sub (the (num (avg_rank (scans ! 0)))) (the (num (avg_rank (scans ! 1)))))
             (Fin 2)
        then 3 else 0) +
       (if truthy (num (avg_rank (scans ! 0))) \<and>
           js_gt (the (num (avg_rank (scans ! 0)))) (Fin 15)
        then 2 else 0) +
       (if length scans = 1 then 1 else 0) \<and>
     risk_score c = sum_list (map factor_weight (risk_factors c))"
proof -
  from assms(1) at_risk_clients_Inr [OF assms(2)] assms(3)
  obtain e where e: "e \<in> set obj" and c: "c = at_risk_entry e"
    by auto
  obtain n scans where ns: "e = (n, scans)" by (cases e)
  from byBusiness_groups(2) [OF assms(2)] e ns have "scans \<noteq> []" by blast
  with e ns c show ?thesis
    using risk_assessment_score [of scans] risk_assessment_weights [of scans]
    by (intro exI [of _ scans]) (simp add: at_risk_entry_def)
qed

theorem risk_score_is_sum_of_weights_witness:
  "at_risk_clients example_results = Inr example_at_risk \<and>
   byBusiness example_results = Inr example_groups \<and>
   hd example_at_risk \<in> set example_at_risk \<and>
   (\<exists>scans. (ar_business_name (hd example_at_risk), scans) \<in> set example_groups \<and> scans \<noteq> [] \<and>
     risk_score (hd example_at_risk) =
       (if 2 \<le> length scans \<and> truthy (num (avg_rank (scans ! 0))) \<and>
           truthy (num (avg_rank (scans ! 1))) \<and>
           js_gt (js_sub (the (num (avg_rank (scans ! 0)))) (the (num (avg_rank (scans ! 1)))))
             (Fin 2)
        then 3 else 0) +
       (if truthy (num (avg_rank (scans ! 0))) \<and>
           js_gt (the (num (avg_rank (scans ! 0)))) (Fin 15)
        then 2 else 0) +
       (if length scans = 1 then 1 else 0) \<and>
     risk_score (hd example_at_risk) = sum_list (map factor_weight (risk_factors (hd example_at_risk)))) \<and>
   risk_score (hd example_at_risk) = 5"
proof -
  have mem: "hd example_at_risk \<in> set example_at_risk"
    by (simp add: example_at_risk_def)
  have five: "risk_score (hd example_at_risk) = 5"
    by (simp add: example_at_risk_def)
  show ?thesis
    using risk_score_is_sum_of_weights [OF example_at_risk_clients example_grouped mem]
      example_at_risk_clients example_grouped mem five
    by (intro conjI) assumption+
qed

text \<open>
  C9. A risk score in the at-risk output is 1, 2, 3 or 5, never 4 or 6: the
  ranking-drop factor needs at least two scans and the low-engagement factor exactly
  one, so the two never appear together.
\<close>

theorem risk_score_never_4_or_6:
  assumes "at_risk_clients results = Inr out" and "c \<in> set out"
  shows "risk_score c \<in> {1, 2, 3, 5} \<and>
     \<not> (LowEngagement \<in> set (risk_factors c) \<and>
        (\<exists>p a. RankingsDropped p a \<in> set (risk_factors c)))"
proof -
  from at_risk_clients_byBusiness [OF assms(1)] obtain obj where
    obj: "byBusiness results = Inr obj" by blast
  from assms(1) at_risk_clients_Inr [OF obj] assms(2)
  obtain e where c: "c = at_risk_entry e" and pos: "0 < snd (risk_assessment (snd e))"
    by auto
  from pos risk_assessment_range [of "snd e"] c
  have "risk_score c \<in> {1, 2, 3, 5}"
    by (auto simp: at_risk_entry_def)
  moreover from c risk_assessment_exclusive [of "snd e"]
  have "\<not> (LowEngagement \<in> set (risk_factors c) \<and>
        (\<exists>p a. RankingsDropped p a \<in> set (risk_factors c)))"
    by (simp add: at_risk_entry_def)
  ultimately show ?thesis by simp
qed

theorem risk_score_never_4_or_6_witness:
  "at_risk_clients example_results = Inr example_at_risk \<and>
   hd example_at_risk \<in> set example_at_risk \<and>
   risk_score (hd example_at_risk) \<in> {1, 2, 3, 5} \<and>
   \<not> (LowEngagement \<in> set (risk_factors (hd example_at_risk)) \<and>
      (\<exists>p a. RankingsDropped p a \<in> set (risk_factors (hd example_at_risk))))"
proof -
  have mem: "hd example_at_risk \<in> set example_at_risk"
    by (simp add: example_at_risk_def)
  show ?thesis
    using risk_score_never_4_or_6 [OF example_at_risk_clients mem]
      example_at_risk_clients mem
    by (intro conjI) simp_all
qed

lemma distinct_map_sort_key: "distinct (map f (sort_key k xs)) = distinct (map f xs)"
  by (rule mset_eq_imp_distinct_iff) simp

lemma names_with_score:
  "map ar_business_name (filter (\<lambda>c. risk_score c = k)
      (map at_risk_entry (filter (\<lambda>e. 0 < snd (risk_assessment (snd e))) es))) =
   map fst (filter (\<lambda>e. 0 < k \<and> snd (risk_assessment (snd e)) = k) es)"
  by (induction es) (auto simp: at_risk_entry_def)

text \<open>
  What holds of the at-risk output: it has exactly the businesses whose risk score is
  positive, each once and with that score; it is in descending order of score, and the
  businesses of equal score keep the order in which \<^verbatim>\<open>Object.entries\<close> lists them.
\<close>

lemma at_risk_output_characterised:
  assumes "at_risk_clients results = Inr out" and "byBusiness results = Inr obj"
  shows "(\<forall>c\<in>set out. 0 < risk_score c \<and>
            (\<exists>scans. (ar_business_name c, scans) \<in> set obj \<and>
                     risk_score c = snd (risk_assessment scans))) \<and>
         ar_business_name ` set out =
           {n. \<exists>scans. (n, scans) \<in> set obj \<and> 0 < snd (risk_assessment scans)} \<and>
         distinct (map ar_business_name out) \<and>
         sorted_wrt (\<lambda>a b. risk_score b \<le> risk_score a) out \<and>
         (\<forall>k. map ar_business_name (filter (\<lambda>c. risk_score c = k) out) =
              map fst (filter (\<lambda>e. 0 < k \<and> snd (risk_assessment (snd e)) = k)
                         (object_entries obj)))"
proof -
  let ?pos = "\<lambda>e. 0 < snd (risk_assessment (snd e))"
  let ?unsorted = "map at_risk_entry (filter ?pos (object_entries obj))"
  let ?key = "\<lambda>a. - int (risk_score a)"
  from assms(1) at_risk_clients_Inr [OF assms(2)]
  have out: "out = sort_key ?key ?unsorted" by simp
  have name: "\<And>e. ar_business_name (at_risk_entry e) = fst e"
    and score: "\<And>e. risk_score (at_risk_entry e) = snd (risk_assessment (snd e))"
    by (simp_all add: at_risk_entry_def)
  have set_out: "set out = at_risk_entry ` {e \<in> set obj. ?pos e}"
    by (simp add: out)
  have c1: "\<forall>c\<in>set out. 0 < risk_score c \<and>
            (\<exists>scans. (ar_business_name c, scans) \<in> set obj \<and>
                     risk_score c = snd (risk_assessment scans))"
  proof
    fix c assume "c \<in> set out"
    with set_out obtain e where e: "e \<in> set obj" "?pos e" "c = at_risk_entry e" by auto
    obtain n scans where "e = (n, scans)" by (cases e)
    with e show "0 < risk_score c \<and>
            (\<exists>scans. (ar_business_name c, scans) \<in> set obj \<and>
                     risk_score c = snd (risk_assessment scans))"
      by (auto simp: name score)
  qed
  have c2: "ar_business_name ` set out =
           {n. \<exists>scans. (n, scans) \<in> set obj \<and> 0 < snd (risk_assessment scans)}"
  proof (intro set_eqI iffI)
    fix n assume "n \<in> ar_business_name ` set out"
    with set_out obtain e where e: "e \<in> set obj" "?pos e" "n = fst e"
      by (auto simp: name)
    obtain a b where "e = (a, b)" by (cases e)
    with e show "n \<in> {n. \<exists>scans. (n, scans) \<in> set obj \<and> 0 < snd (risk_assessment scans)}"
      by auto
  next
    fix n assume "n \<in> {n. \<exists>scans. (n, scans) \<in> set obj \<and> 0 < snd (risk_assessment scans)}"
    then obtain scans where "(n, scans) \<in> set obj" "0 < snd (risk_assessment scans)"
      by blast
    then have "at_risk_entry (n, scans) \<in> set out"
      unfolding set_out by force
    then have "ar_business_name (at_risk_entry (n, scans)) \<in> ar_business_name ` set out"
      by (rule imageI)
    then show "n \<in> ar_business_name ` set out"
      by (simp add: name)
  qed
  have names: "map ar_business_name ?unsorted = map fst (filter ?pos (object_entries obj))"
    by (simp add: name comp_def)
  have "distinct (map fst (filter ?pos (object_entries obj)))"
    using distinct_object_entries [OF byBusiness_groups(1) [OF assms(2)]]
    by (rule distinct_map_filter)
  then have "distinct (map ar_business_name ?unsorted)" by (simp only: names)
  then have "distinct (map ar_business_name (sort_key ?key ?unsorted))"
    by (simp only: distinct_map_sort_key)
  then have c3: "distinct (map ar_business_name out)" by (simp only: out)
  have "sorted (map ?key out)" unfolding out by (rule sorted_sort_key)
  then have c4: "sorted_wrt (\<lambda>a b. risk_score b \<le> risk_score a) out"
    by (simp add: sorted_map)
  have c5: "\<forall>k. map ar_business_name (filter (\<lambda>c. risk_score c = k) out) =
              map fst (filter (\<lambda>e. 0 < k \<and> snd (risk_assessment (snd e)) = k)
                         (object_entries obj))"
  proof
    fix k
    have "filter (\<lambda>c. risk_score c = k) out = filter (\<lambda>c. ?key c = - int k) out"
      by simp
    also have "\<dots> = filter (\<lambda>c. ?key c = - int k) ?unsorted"
      unfolding out by (rule sort_key_stable)
    also have "\<dots> = filter (\<lambda>c. risk_score c = k) ?unsorted"
      by simp
    finally have "map ar_business_name (filter (\<lambda>c. risk_score c = k) out) =
        map ar_business_name (filter (\<lambda>c. risk_score c = k) ?unsorted)"
      by simp
    also have "\<dots> = map fst (filter (\<lambda>e. 0 < k \<and> snd (risk_assessment (snd e)) = k)
                         (object_entries obj))"
      by (rule names_with_score)
    finally show "map ar_business_name (filter (\<lambda>c. risk_score c = k) out) =
              map fst (filter (\<lambda>e. 0 < k \<and> snd (risk_assessment (snd e)) = k)
                         (object_entries obj))" .
  qed
  show ?thesis
    by (intro conjI) (rule c1, rule c2, rule c3, rule c4, rule c5)
qed

text \<open>
  C6. The businesses \<^verbatim>\<open>Zed\<close>, \<^verbatim>\<open>10\<close> and \<^verbatim>\<open>2\<close> are aggregated in this order and
  each scores 1, but the at-risk output lists them as \<^verbatim>\<open>2\<close>, \<^verbatim>\<open>10\<close>, \<^verbatim>\<open>Zed\<close>: the
  grouping is a plain object, whose keys that are array indices \<^verbatim>\<open>Object.entries\<close>
  lists first and in numeric order. The ties do not keep the order of aggregation.
  (The rest of C6 holds whenever the grouping returns: \<open>at_risk_output_characterised\<close>
  shows that the output has exactly the businesses of positive score, in descending
  order of score, the ties in the order of \<^verbatim>\<open>Object.entries\<close>, which by
  \<open>object_entries_no_index\<close> is the order of aggregation when no name is an array index.)
\<close>

theorem at_risk_ties_not_in_aggregation_order:
  "byBusiness index_named_results =
     Inr [(''Zed'', [example_scan ''s3'' ''Zed'' (Some 5) 3]),
          (''10'', [example_scan ''s2'' ''10'' (Some 5) 2]),
          (''2'', [example_scan ''s1'' ''2'' (Some 5) 1])] \<and>
   at_risk_clients index_named_results =
     Inr [\<lparr>ar_business_name = ''2'', risk_score = 1, risk_factors = [LowEngagement],
           action = ''Reach out proactively''\<rparr>,
          \<lparr>ar_business_name = ''10'', risk_score = 1, risk_factors = [LowEngagement],
           action = ''Reach out proactively''\<rparr>,
          \<lparr>ar_business_name = ''Zed'', risk_score = 1, risk_factors = [LowEngagement],
           action = ''Reach out proactively''\<rparr>]"
  by code_simp

section \<open>The grouping, continued\<close>

lemma push_scan_returns:
  "fst ` set obj \<inter> set object_prototype_keys = {} \<Longrightarrow>
   (\<exists>obj'. push_scan obj s = Inr obj') \<longleftrightarrow> business_key s \<notin> set object_prototype_keys"
proof -
  assume inv: "fst ` set obj \<inter> set object_prototype_keys = {}"
  show ?thesis
  proof (cases "map_of obj (business_key s)")
    case None
    then show ?thesis by (simp add: push_scan_def Let_def)
  next
    case (Some ss)
    then have "business_key s \<in> fst ` set obj"
      by (metis map_of_eq_None_iff option.distinct(1))
    with inv have "business_key s \<notin> set object_prototype_keys" by blast
    with Some show ?thesis by (simp add: push_scan_def Let_def)
  qed
qed

lemma push_scan_keys:
  "push_scan obj s = Inr obj' \<Longrightarrow> fst ` set obj' = insert (business_key s) (fst ` set obj)"
proof (cases "map_of obj (business_key s)")
  case None
  assume "push_scan obj s = Inr obj'"
  with None show ?thesis
    by (auto simp: push_scan_def Let_def split: if_splits)
next
  case (Some ss)
  assume "push_scan obj s = Inr obj'"
  with Some
  have "obj' = map (\<lambda>(k, v). if k = business_key s then (k, v @ [s]) else (k, v)) obj"
    by (simp add: push_scan_def Let_def)
  then have "map fst obj' = map fst obj"
    by (simp only: map_fst_update_group)
  then have "fst ` set obj' = fst ` set obj"
    by (metis set_map)
  moreover from Some have "business_key s \<in> fst ` set obj"
    by (metis map_of_eq_None_iff option.distinct(1))
  ultimately show ?thesis by auto
qed

lemma for_each_push_scan_returns:
  "fst ` set obj \<inter> set object_prototype_keys = {} \<Longrightarrow>
   (\<exists>obj'. for_each push_scan obj rs = Inr obj') \<longleftrightarrow>
   (\<forall>s\<in>set rs. business_key s \<notin> set object_prototype_keys)"
proof (induction rs arbitrary: obj)
  case Nil
  then show ?case by simp
next
  case (Cons r rs)
  show ?case
  proof (cases "push_scan obj r")
    case (Inl e)
    with push_scan_returns [OF Cons.prems, of r] show ?thesis by simp
  next
    case (Inr obj1)
    with push_scan_returns [OF Cons.prems, of r]
    have ok: "business_key r \<notin> set object_prototype_keys" by auto
    from push_scan_keys [OF Inr] Cons.prems ok
    have "fst ` set obj1 \<inter> set object_prototype_keys = {}" by auto
    from Cons.IH [OF this] Inr ok show ?thesis by simp
  qed
qed

lemma byBusiness_returns_iff:
  "(\<exists>obj. byBusiness results = Inr obj) \<longleftrightarrow>
   (\<forall>s\<in>set results. business_key s \<notin> set object_prototype_keys)"
  using for_each_push_scan_returns [of "[]" results] by (simp add: byBusiness_def)

text \<open>
  C1, as stated, fails: no sort is performed. For a business whose scans arrive oldest
  first the group keeps that order, the older scan is the one treated as latest, and
  the summary reports a decline although the newer scan has the better rank.
\<close>

theorem grouping_not_newest_first:
  "byBusiness unsorted_results = Inr [(''Acme'', unsorted_results)] \<and>
   created_at (unsorted_results ! 0) < created_at (unsorted_results ! 1) \<and>
   portfolio_summary unsorted_results =
     Inr \<lparr>total_clients = 1, total_scans = 2, improving = 0, declining = 1, stable = 0,
          clients = [\<lparr>pc_name = ''Acme'', pc_status = Declining, pc_avg_rank = Some (Fin 10),
                      pc_change = Some (Fin (- 5)), pc_view_url = Null\<rparr>],
          avg_rank_across_portfolio = Some (Fin 10)\<rparr>"
  by code_simp

text \<open>
  C1, amended. The grouping keeps each business's scans in the order of the input
  list: a group is the sublist of the input with that business name, so the scan
  treated as latest is the business's first scan in the input and the previous one
  its second. When the input is in descending order of creation time, so is every group.
\<close>

theorem grouping_keeps_input_order:
  assumes "byBusiness results = Inr obj" and "(n, scans) \<in> set obj"
  shows "scans = filter (\<lambda>s. business_key s = n) results \<and> scans \<noteq> [] \<and>
         (sorted_wrt (\<lambda>a b. created_at b \<le> created_at a) results \<longrightarrow>
          sorted_wrt (\<lambda>a b. created_at b \<le> created_at a) scans)"
proof -
  from byBusiness_groups(2) [OF assms]
  have eq: "scans = filter (\<lambda>s. business_key s = n) results" and ne: "scans \<noteq> []"
    by blast+
  have "sorted_wrt (\<lambda>a b. created_at b \<le> created_at a) results \<longrightarrow>
          sorted_wrt (\<lambda>a b. created_at b \<le> created_at a) scans"
    unfolding eq by (simp add: sorted_wrt_filter)
  with eq ne show ?thesis by blast
qed

theorem grouping_keeps_input_order_witness:
  "byBusiness example_results = Inr example_groups \<and>
   (''Carl'', [example_scan ''s5'' ''Carl'' (Some 16) 5, example_scan ''s3'' ''Carl'' (Some 10) 3])
     \<in> set example_groups \<and>
   sorted_wrt (\<lambda>a b. created_at b \<le> created_at a) example_results \<and>
   [example_scan ''s5'' ''Carl'' (Some 16) 5, example_scan ''s3'' ''Carl'' (Some 10) 3] =
     filter (\<lambda>s. business_key s = ''Carl'') example_results \<and>
   sorted_wrt (\<lambda>a b. created_at b \<le> created_at a)
     [example_scan ''s5'' ''Carl'' (Some 16) 5, example_scan ''s3'' ''Carl'' (Some 10) 3]"
proof -
  have mem: "(''Carl'', [example_scan ''s5'' ''Carl'' (Some 16) 5, example_scan ''s3'' ''Carl'' (Some 10) 3])
     \<in> set example_groups"
    by (simp add: example_groups_def)
  have desc: "sorted_wrt (\<lambda>a b. created_at b \<le> created_at a) example_results"
    by (simp add: example_results_def example_scan_def)
  show ?thesis
    using grouping_keeps_input_order [OF example_grouped mem] example_grouped mem desc
    by (intro conjI) (assumption | blast)+
qed

text \<open>
  C8. On a scan list that has a business named \<^verbatim>\<open>constructor\<close> the grouping throws
  a TypeError, and the report builders with it: no grouping is produced, so the
  records are not recovered. (Whenever the grouping returns, \<open>byBusiness_groups\<close>
  shows that it holds every scan exactly once, and \<open>byBusiness_returns_iff\<close> that it
  returns exactly when no name is a member of \<^verbatim>\<open>Object.prototype\<close>.)
\<close>

theorem grouping_fails_on_prototype_name:
  "byBusiness prototype_named_results = Inl TypeError \<and>
   portfolio_summary prototype_named_results = Inl TypeError \<and>
   at_risk_clients prototype_named_results = Inl TypeError"
  by code_simp

section \<open>Quick wins and the client report\<close>

























text \<open>
  C7, as stated, fails: the business \<^verbatim>\<open>Acme\<close> has a single scan on record, but the name
  also matches the scan of \<^verbatim>\<open>Acme Dental\<close>, which is taken as the previous scan of the
  client, and the report lists a win.
\<close>

theorem client_report_mixes_businesses:
  "byBusiness overlapping_results =
     Inr [(''Acme'', [example_scan ''a1'' ''Acme'' (Some 4) 2]),
          (''Acme Dental'', [example_scan ''d1'' ''Acme Dental'' (Some 8) 1])] \<and>
   client_report ascii_lower overlapping_api ''Acme'' overlapping_results =
     Inr (Report overlapping_report) \<and>
   cr_business_name overlapping_report = Some ''Acme'' \<and>
   wins overlapping_report =
     [\<lparr>w_keyword = ''plumber'', w_from = Fin 8, w_to = Fin 4, improved_by = Fin 4\<rparr>]"
  by code_simp

text \<open>
  C7, amended. The scans of the client are the scans whose business name contains
  the requested name, whatever the case of the letters. A client report built from
  fewer than two such scans has empty lists of wins and drops. The report has no
  field for an average-rank delta at all (see the record \<open>client_report\<close>), so no
  delta, and in particular no zero delta, is reported.
\<close>

theorem client_report_single_scan:
  assumes "client_report toLowerCase api businessName results = Inr (Report r)"
    and "length (filter (name_matches toLowerCase (toLowerCase businessName)) results) < 2"
  shows "wins r = [] \<and> drops r = [] \<and> cr_total_scans r = 1"
proof -
  let ?clientScans = "filter (name_matches toLowerCase (toLowerCase businessName)) results"
  from assms(1) have "?clientScans \<noteq> []"
    by (auto simp: client_report_def Let_def split: if_splits)
  with assms(2) have one: "length ?clientScans = 1"
    by (cases ?clientScans) auto
  with assms(1) show ?thesis
    by (auto simp: client_report_def compare_with_previous_def Let_def
             split: if_splits sum.splits)
qed

theorem client_report_single_scan_witness:
  "client_report ascii_lower (example_api (Some 5) None) ''acme''
       [example_scan ''s7'' ''Acme'' (Some 5) 7] =
     Inr (Report (example_report (Some 5) Omitted)) \<and>
   length (filter (name_matches ascii_lower (ascii_lower ''acme''))
             [example_scan ''s7'' ''Acme'' (Some 5) 7]) < 2 \<and>
   wins (example_report (Some 5) Omitted) = [] \<and>
   drops (example_report (Some 5) Omitted) = [] \<and>
   cr_total_scans (example_report (Some 5) Omitted) = 1"
proof -
  have run: "client_report ascii_lower (example_api (Some 5) None) ''acme''
       [example_scan ''s7'' ''Acme'' (Some 5) 7] =
     Inr (Report (example_report (Some 5) Omitted))"
    by code_simp
  have few: "length (filter (name_matches ascii_lower (ascii_lower ''acme''))
             [example_scan ''s7'' ''Acme'' (Some 5) 7]) < 2"
    by simp
  from client_report_single_scan [OF run few] run few show ?thesis
    by (intro conjI) simp_all
qed

section \<open>The portfolio summary and the view URL\<close>

lemma classify_trend:
  "fst (classify scans vars) =
     (case rank_change scans of
        None \<Rightarrow> New
      | Some d \<Rightarrow>
          if js_gt d (Fin (1 / 2)) then Improving
          else if js_lt d (Fin (- (1 / 2))) then Declining else Stable)"
  "fst (snd (classify scans vars)) = rank_change scans"
  "clients (snd (snd (classify scans vars))) = clients vars"
  by (simp_all add: classify_def rank_change_def Let_def)

lemma portfolio_step_clients:
  "snd e \<noteq> [] \<Longrightarrow>
   \<exists>vars'. portfolio_step vars e = Inr vars' \<and> clients vars' = clients vars @ [portfolio_entry e]"
  by (simp add: portfolio_step_def portfolio_entry_def Let_def classify_trend)

lemma for_each_portfolio_step:
  "\<forall>e\<in>set es. snd e \<noteq> [] \<Longrightarrow>
   \<exists>vars'. for_each portfolio_step vars es = Inr vars' \<and>
           clients vars' = clients vars @ map portfolio_entry es"
proof (induction es arbitrary: vars)
  case Nil
  then show ?case by simp
next
  case (Cons e es)
  from Cons.prems have "snd e \<noteq> []" by simp
  from portfolio_step_clients [OF this, of vars] obtain vars1 where
    one: "portfolio_step vars e = Inr vars1" "clients vars1 = clients vars @ [portfolio_entry e]"
    by blast
  from Cons.prems have "\<forall>e\<in>set es. snd e \<noteq> []" by simp
  from Cons.IH [OF this, of vars1] one show ?case by auto
qed

lemma portfolio_summary_clients:
  assumes "portfolio_summary results = Inr report" and "byBusiness results = Inr obj"
  shows "clients report =
           sort_key (\<lambda>c. order (pc_status c)) (map portfolio_entry (object_entries obj))"
proof -
  have ne: "\<forall>e\<in>set (object_entries obj). snd e \<noteq> []"
    using byBusiness_groups(2) [OF assms(2)] by auto
  let ?init = "\<lparr>total_clients = length obj, total_scans = length results,
                   improving = 0, declining = 0, stable = 0, clients = [],
                   totalRank = Fin 0, rankCount = 0\<rparr>"
  from for_each_portfolio_step [OF ne, of ?init] obtain vars' where
    "for_each portfolio_step ?init (object_entries obj) = Inr vars'"
    "clients vars' = map portfolio_entry (object_entries obj)"
    by auto
  with assms show ?thesis
    by (auto simp: portfolio_summary_def)
qed

lemma portfolio_summary_client:
  assumes "portfolio_summary results = Inr report" and "byBusiness results = Inr obj"
    and "c \<in> set (clients report)"
  shows "\<exists>n scans. (n, scans) \<in> set obj \<and> scans \<noteq> [] \<and> c = portfolio_entry (n, scans)"
proof -
  from assms(3) portfolio_summary_clients [OF assms(1,2)]
  obtain e where e: "e \<in> set obj" "c = portfolio_entry e" by auto
  obtain n scans where ns: "e = (n, scans)" by (cases e)
  from byBusiness_groups(2) [OF assms(2)] e ns have "scans \<noteq> []" by blast
  with e ns show ?thesis by blast
qed

lemma foldl_compare_keyword_view_url:
  "cr_view_url (foldl (compare_keyword p) report kws) = cr_view_url report"
  by (induction kws arbitrary: report) (simp_all add: compare_keyword_def Let_def)

lemma compare_with_previous_view_url:
  "compare_with_previous api cs d report = Inr report' \<Longrightarrow>
   cr_view_url report' = cr_view_url report"
  by (auto simp: compare_with_previous_def Let_def foldl_compare_keyword_view_url
           split: if_splits sum.splits)

lemma client_report_view_url:
  assumes "client_report toLowerCase api businessName results = Inr (Report r)"
  shows "\<exists>d. api (uuid (filter (name_matches toLowerCase (toLowerCase businessName)) results ! 0)) = Inr d \<and>
           cr_view_url r =
             (if truthy_str (public_share_token d)
              then Url (share_url (the (public_share_token d))) else Omitted)"
proof -
  let ?cs = "filter (name_matches toLowerCase (toLowerCase businessName)) results"
  from assms obtain d where d: "api (uuid (?cs ! 0)) = Inr d"
    by (auto simp: client_report_def Let_def split: if_splits sum.splits)
  let ?report = "\<lparr>cr_business_name = business_name (?cs ! 0),
                        cr_latest_scan =
                          \<lparr>date = created_at d,
                           ls_avg_rank = num (avg_rank d),
                           ls_keywords =
                             map (\<lambda>kw. \<lparr>rk_keyword = keyword kw,
                                         rk_avg_rank = num (kw_avg_rank kw),
                                         rk_best_rank = num (best_rank kw)\<rparr>)
                                 (keyword_results d)\<rparr>,
                        wins = [], drops = [],
                        cr_total_scans = length ?cs,
                        cr_view_url = Omitted\<rparr>"
  from assms d obtain report' where
    cmp: "compare_with_previous api ?cs d ?report = Inr report'" and
    r: "r = (if truthy_str (public_share_token d)
             then report'\<lparr>cr_view_url := Url (share_url (the (public_share_token d)))\<rparr>
             else report')"
    by (auto simp: client_report_def Let_def split: if_splits sum.splits)
  from compare_with_previous_view_url [OF cmp] have "cr_view_url report' = Omitted"
    by simp
  with r d show ?thesis by auto
qed

text \<open>
  C3, as stated, fails. A business with two scans whose previous average rank is
  missing, or is 0, has the status \<^verbatim>\<open>new\<close> and a \<^verbatim>\<open>null\<close> change: it is not new by the
  number of its scans, and from 0 to 5 the change is -5, less than -0.5. A business
  whose average rank went from 1.1 to 0.6 has changed by 0.5 and no more, yet its
  status is \<^verbatim>\<open>improving\<close>: the difference of the two doubles is 0.5000000000000001.
\<close>

theorem status_new_with_two_scans_and_rounding:
  "portfolio_summary null_previous_results =
     Inr \<lparr>total_clients = 1, total_scans = 2, improving = 0, declining = 0, stable = 0,
          clients = [\<lparr>pc_name = ''Acme'', pc_status = New, pc_avg_rank = Some (Fin 5),
                      pc_change = None, pc_view_url = Null\<rparr>],
          avg_rank_across_portfolio = Some (Fin 5)\<rparr> \<and>
   portfolio_summary zero_previous_results =
     Inr \<lparr>total_clients = 1, total_scans = 2, improving = 0, declining = 0, stable = 0,
          clients = [\<lparr>pc_name = ''Acme'', pc_status = New, pc_avg_rank = Some (Fin 5),
                      pc_change = None, pc_view_url = Null\<rparr>],
          avg_rank_across_portfolio = Some (Fin 5)\<rparr> \<and>
   portfolio_summary half_point_results =
     Inr \<lparr>total_clients = 1, total_scans = 2, improving = 1, declining = 0, stable = 0,
          clients = [\<lparr>pc_name = ''Acme'', pc_status = Improving,
                      pc_avg_rank = Some (number (6 / 10)),
                      pc_change = Some (Fin (1 / 2)), pc_view_url = Null\<rparr>],
          avg_rank_across_portfolio = Some (number (6 / 10))\<rparr> \<and>
   js_sub (number (11 / 10)) (number (6 / 10)) = Fin (1 / 2 + 1 / 2 ^ 53)"
  by code_simp

text \<open>
  C3, amended. The status of a client of the portfolio summary is \<^verbatim>\<open>new\<close> when the
  business has fewer than two scans, and also when the average rank of its latest or
  of its previous scan is not truthy (is missing, 0 or \<^verbatim>\<open>NaN\<close>). Otherwise it follows
  the change, the previous average rank minus the latest as JavaScript computes it on
  doubles: \<^verbatim>\<open>improving\<close> when the change is greater than 0.5, \<^verbatim>\<open>declining\<close> when it is
  less than -0.5, and \<^verbatim>\<open>stable\<close> otherwise.
\<close>

theorem portfolio_status_from_change:
  assumes "portfolio_summary results = Inr report" and "byBusiness results = Inr obj"
    and "c \<in> set (clients report)"
  shows "\<exists>scans. (pc_name c, scans) \<in> set obj \<and> scans \<noteq> [] \<and>
     pc_status c =
       (if length scans < 2 \<or> \<not> truthy (num (avg_rank (scans ! 0))) \<or>
           \<not> truthy (num (avg_rank (scans ! 1)))
        then New
        else if js_gt (js_sub (the (num (avg_rank (scans ! 1)))) (the (num (avg_rank (scans ! 0)))))
                  (Fin (1 / 2))
        then Improving
        else if js_lt (js_sub (the (num (avg_rank (scans ! 1)))) (the (num (avg_rank (scans ! 0)))))
                  (Fin (- (1 / 2)))
        then Declining
        else Stable)"
proof -
  from portfolio_summary_client [OF assms] obtain n scans where
    s: "(n, scans) \<in> set obj" "scans \<noteq> []" and c: "c = portfolio_entry (n, scans)"
    by blast
  have nm: "pc_name c = n"
    by (simp add: c portfolio_entry_def)
  have st: "pc_status c =
       (if length scans < 2 \<or> \<not> truthy (num (avg_rank (scans ! 0))) \<or>
           \<not> truthy (num (avg_rank (scans ! 1)))
        then New
        else if js_gt (js_sub (the (num (avg_rank (scans ! 1)))) (the (num (avg_rank (scans ! 0)))))
                  (Fin (1 / 2))
        then Improving
        else if js_lt (js_sub (the (num (avg_rank (scans ! 1)))) (the (num (avg_rank (scans ! 0)))))
                  (Fin (- (1 / 2)))
        then Declining
        else Stable)"
    by (simp add: c portfolio_entry_def rank_change_def not_less)
  with s nm show ?thesis
    by (intro exI [of _ scans]) simp
qed

text \<open>
  C4, as stated, fails: for a scan without a share token the portfolio summary emits
  the \<^verbatim>\<open>view_url\<close> of the client as an explicit \<^verbatim>\<open>null\<close>.
\<close>

theorem portfolio_view_url_is_null:
  "public_share_token (example_scan ''s7'' ''Acme'' (Some 5) 7) = None \<and>
   portfolio_summary [example_scan ''s7'' ''Acme'' (Some 5) 7] =
     Inr \<lparr>total_clients = 1, total_scans = 1, improving = 0, declining = 0, stable = 0,
          clients = [\<lparr>pc_name = ''Acme'', pc_status = New, pc_avg_rank = Some (Fin 5),
                      pc_change = None, pc_view_url = Null\<rparr>],
          avg_rank_across_portfolio = Some (Fin 5)\<rparr>"
  by code_simp

text \<open>
  C4, amended. In the client report the \<^verbatim>\<open>view_url\<close> is the share link built from
  the token in the detail of the latest scan (the first scan that matches the
  requested name) when that token is present and not empty, and the field is omitted
  otherwise. In the portfolio summary every client has the
  field: the share link built from the token of the latest scan of the business when
  that token is present, and an explicit \<^verbatim>\<open>null\<close> otherwise.
\<close>

theorem view_url_omitted_or_null:
  "(client_report toLowerCase api businessName results = Inr (Report r) \<longrightarrow>
      (\<exists>d. api (uuid (filter (name_matches toLowerCase (toLowerCase businessName)) results ! 0)) = Inr d \<and>
           cr_view_url r =
             (if truthy_str (public_share_token d)
              then Url (share_url (the (public_share_token d))) else Omitted))) \<and>
   (portfolio_summary results = Inr report \<and> byBusiness results = Inr obj \<and>
    c \<in> set (clients report) \<longrightarrow>
      (\<exists>scans. (pc_name c, scans) \<in> set obj \<and> scans \<noteq> [] \<and>
           pc_view_url c =
             (if truthy_str (public_share_token (scans ! 0))
              then Url (share_url (the (public_share_token (scans ! 0)))) else Null)))"
proof (intro conjI impI)
  assume "client_report toLowerCase api businessName results = Inr (Report r)"
  then show "\<exists>d. api (uuid (filter (name_matches toLowerCase (toLowerCase businessName)) results ! 0)) = Inr d \<and>
           cr_view_url r =
             (if truthy_str (public_share_token d)
              then Url (share_url (the (public_share_token d))) else Omitted)"
    by (rule client_report_view_url)
next
  assume a: "portfolio_summary results = Inr report \<and> byBusiness results = Inr obj \<and>
    c \<in> set (clients report)"
  then have "\<exists>n scans. (n, scans) \<in> set obj \<and> scans \<noteq> [] \<and> c = portfolio_entry (n, scans)"
    by (intro portfolio_summary_client) blast+
  then obtain n scans where
    s: "(n, scans) \<in> set obj" "scans \<noteq> []" and c: "c = portfolio_entry (n, scans)"
    by blast
  have nm: "pc_name c = n"
    by (simp add: c portfolio_entry_def)
  have "pc_view_url c =
             (if truthy_str (public_share_token (scans ! 0))
              then Url (share_url (the (public_share_token (scans ! 0)))) else Null)"
    by (simp add: c portfolio_entry_def)
  with s nm show "\<exists>scans. (pc_name c, scans) \<in> set obj \<and> scans \<noteq> [] \<and>
           pc_view_url c =
             (if truthy_str (public_share_token (scans ! 0))
              then Url (share_url (the (public_share_token (scans ! 0)))) else Null)"
    by (intro exI [of _ scans]) simp
qed

lemma example_portfolio_summary: "portfolio_summary example_results = Inr example_summary"
  by code_simp

theorem portfolio_status_from_change_witness:
  "portfolio_summary example_results = Inr example_summary \<and>
   byBusiness example_results = Inr example_groups \<and>
   hd (clients example_summary) \<in> set (clients example_summary) \<and>
   (\<exists>scans. (pc_name (hd (clients example_summary)), scans) \<in> set example_groups \<and>
      scans \<noteq> [] \<and>
      pc_status (hd (clients example_summary)) =
        (if length scans < 2 \<or> \<not> truthy (num (avg_rank (scans ! 0))) \<or>
            \<not> truthy (num (avg_rank (scans ! 1)))
         then New
         else if js_gt (js_sub (the (num (avg_rank (scans ! 1)))) (the (num (avg_rank (scans ! 0)))))
                   (Fin (1 / 2))
         then Improving
         else if js_lt (js_sub (the (num (avg_rank (scans ! 1)))) (the (num (avg_rank (scans ! 0)))))
                   (Fin (- (1 / 2)))
         then Declining
         else Stable)) \<and>
   pc_name (hd (clients example_summary)) = ''Carl'' \<and>
   pc_status (hd (clients example_summary)) = Declining \<and>
   rank_change [example_scan ''s5'' ''Carl'' (Some 16) 5, example_scan ''s3'' ''Carl'' (Some 10) 3] =
     Some (Fin (- 6))"
proof -
  have mem: "hd (clients example_summary) \<in> set (clients example_summary)"
    by (simp add: example_summary_def)
  have nm: "pc_name (hd (clients example_summary)) = ''Carl''"
    by (simp add: example_summary_def)
  have st: "pc_status (hd (clients example_summary)) = Declining"
    by (simp add: example_summary_def)
  have ch: "rank_change [example_scan ''s5'' ''Carl'' (Some 16) 5,
        example_scan ''s3'' ''Carl'' (Some 10) 3] = Some (Fin (- 6))"
    by code_simp
  show ?thesis
    using portfolio_status_from_change [OF example_portfolio_summary example_grouped mem]
      example_portfolio_summary example_grouped mem nm st ch
    by (intro conjI) assumption+
qed

theorem view_url_omitted_or_null_witness:
  "client_report ascii_lower (example_api (Some 5) (Some ''tok'')) ''acme''
       [example_scan ''s7'' ''Acme'' (Some 5) 7] =
     Inr (Report (example_report (Some 5) (Url ''https://app.localrank.so/share/tok''))) \<and>
   client_report ascii_lower (example_api (Some 5) None) ''acme''
       [example_scan ''s7'' ''Acme'' (Some 5) 7] =
     Inr (Report (example_report (Some 5) Omitted)) \<and>
   (\<exists>d. example_api (Some 5) (Some ''tok'')
           (uuid (filter (name_matches ascii_lower (ascii_lower ''acme''))
                    [example_scan ''s7'' ''Acme'' (Some 5) 7] ! 0)) = Inr d \<and>
        cr_view_url (example_report (Some 5) (Url ''https://app.localrank.so/share/tok'')) =
          (if truthy_str (public_share_token d)
           then Url (share_url (the (public_share_token d))) else Omitted)) \<and>
   portfolio_summary example_results = Inr example_summary \<and>
   byBusiness example_results = Inr example_groups \<and>
   hd (clients example_summary) \<in> set (clients example_summary) \<and>
   (\<exists>scans. (pc_name (hd (clients example_summary)), scans) \<in> set example_groups \<and>
      scans \<noteq> [] \<and>
      pc_view_url (hd (clients example_summary)) =
        (if truthy_str (public_share_token (scans ! 0))
         then Url (share_url (the (public_share_token (scans ! 0)))) else Null)) \<and>
   pc_view_url (hd (clients example_summary)) = Null"
proof -
  have with_token: "client_report ascii_lower (example_api (Some 5) (Some ''tok'')) ''acme''
       [example_scan ''s7'' ''Acme'' (Some 5) 7] =
     Inr (Report (example_report (Some 5) (Url ''https://app.localrank.so/share/tok'')))"
    by code_simp
  have without: "client_report ascii_lower (example_api (Some 5) None) ''acme''
       [example_scan ''s7'' ''Acme'' (Some 5) 7] =
     Inr (Report (example_report (Some 5) Omitted))"
    by code_simp
  have mem: "hd (clients example_summary) \<in> set (clients example_summary)"
    by (simp add: example_summary_def)
  have null: "pc_view_url (hd (clients example_summary)) = Null"
    by (simp add: example_summary_def)
  note t = view_url_omitted_or_null
    [where toLowerCase = ascii_lower and api = "example_api (Some 5) (Some ''tok'')"
       and businessName = "''acme''"
       and r = "example_report (Some 5) (Url ''https://app.localrank.so/share/tok'')"
       and results = "[example_scan ''s7'' ''Acme'' (Some 5) 7]"]
  note u = view_url_omitted_or_null
    [where results = example_results and report = example_summary and obj = example_groups
       and c = "hd (clients example_summary)"]
  from t with_token
  have a: "\<exists>d. example_api (Some 5) (Some ''tok'')
           (uuid (filter (name_matches ascii_lower (ascii_lower ''acme''))
                    [example_scan ''s7'' ''Acme'' (Some 5) 7] ! 0)) = Inr d \<and>
        cr_view_url (example_report (Some 5) (Url ''https://app.localrank.so/share/tok'')) =
          (if truthy_str (public_share_token d)
           then Url (share_url (the (public_share_token d))) else Omitted)"
    by blast
  from u example_portfolio_summary example_grouped mem
  have b: "\<exists>scans. (pc_name (hd (clients example_summary)), scans) \<in> set example_groups \<and>
      scans \<noteq> [] \<and>
      pc_view_url (hd (clients example_summary)) =
        (if truthy_str (public_share_token (scans ! 0))
         then Url (share_url (the (public_share_token (scans ! 0)))) else Null)"
    by blast
  show ?thesis
    using with_token without a example_portfolio_summary example_grouped mem b null
    by (intro conjI) assumption+
qed

section \<open>An average rank of zero\<close>

lemma number_zero: "number 0 = Fin 0"
  by (simp add: number_def rnd_def)

lemma truthy_null_zero [simp]: "truthy (num (null_zero v)) = truthy (num v)"
  by (cases v) (simp_all add: null_zero_def num_def truthy_def number_zero)

lemma null_zero_truthy: "truthy (num v) \<Longrightarrow> num (null_zero v) = num v"
  by (cases v) (auto simp: null_zero_def num_def truthy_def number_zero)

lemma scan_null_zero_simps [simp]:
  "business_key (scan_null_zero s) = business_key s"
  "uuid (scan_null_zero s) = uuid s"
  "public_share_token (scan_null_zero s) = public_share_token s"
  "business_name (scan_null_zero s) = business_name s"
  "avg_rank (scan_null_zero s) = null_zero (avg_rank s)"
  by (simp_all add: scan_null_zero_def business_key_def)

lemma keyword_null_zero_simps [simp]:
  "keyword (keyword_null_zero kw) = keyword kw"
  "kw_avg_rank (keyword_null_zero kw) = null_zero (kw_avg_rank kw)"
  by (simp_all add: keyword_null_zero_def)












lemma daily_quick_win_check_null_zero [simp]:
  "daily_quick_win_check (keyword_null_zero kw) = daily_quick_win_check kw"
  by (auto simp: daily_quick_win_check_def null_zero_truthy)

lemma quick_win_check_null_zero [simp]:
  "quick_win_check (keyword_null_zero kw) = quick_win_check kw"
  by (auto simp: quick_win_check_def null_zero_truthy)








lemma name_matches_null_zero [simp]:
  "name_matches toLowerCase t (scan_null_zero s) = name_matches toLowerCase t s"
  by (simp add: name_matches_def)







end
